theory Spec2Isabelle
  imports Complex_Main
begin

section \<open>The volume renderer of spimagine (volume_render.py)\<close>

text \<open>
  The class \<open>VolumeRenderer\<close> is embedded as a record of its attributes; every method takes
  the record and returns the result together with the updated record. A Python exception is
  the left injection of a sum, and the record returned with it is the object as the \<open>raise\<close>
  left it.

  Conventions of the embedding.
  \<^item> numpy float64/float32 values are idealised as exact reals. The one place where the source
    produces a non-finite float without raising (a numpy division by zero in
    \<open>_stack_scale_mat\<close>) is a branch of its own.
  \<^item> An array is its dtype (scalar type and byte order) and its shape; the element values of
    a volume are not modelled.
    The pixel values of the output buffer are.
  \<^item> The OpenCL device, \<open>numpy.dot\<close>, \<open>scipy.linalg.inv\<close> and the kernel \<open>max_project\<close>
    are external to the file: the device is its properties, the three functions
    are the fields of a record \<open>external\<close> that \<open>render\<close> takes as an argument.
  \<^item> A numpy scalar type (\<open>np.float32\<close>, \<open>data.dtype.type\<close>) and a dtype object
    (\<open>data.dtype\<close>) are different values: the object carries a byte order.
  \<^item> Sizes and counts are Python integers that are never negative here: \<open>nat\<close>. The
    conversions \<open>int32(self.width)\<close> and \<open>np.float32(...)\<close> of the kernel arguments keep the
    value.
  \<^item> \<open>print\<close> and \<open>logger.info\<close> are not modelled.
  \<^item> Python names that start with an underscore lose it (\<open>_data\<close> is \<open>p_data\<close>).
\<close>

subsection \<open>Arrays and dtypes\<close>

datatype dtype =
  Bool8 | Int8 | UInt8 | Int16 | UInt16 | Int32 | UInt32 | Int64 | UInt64
  | Float16 | Float32 | Float64 | Complex64 | Complex128

fun itemsize :: "dtype \<Rightarrow> nat" where
  "itemsize Bool8 = 1"
| "itemsize Int8 = 1"
| "itemsize UInt8 = 1"
| "itemsize Int16 = 2"
| "itemsize UInt16 = 2"
| "itemsize Int32 = 4"
| "itemsize UInt32 = 4"
| "itemsize Int64 = 8"
| "itemsize UInt64 = 8"
| "itemsize Float16 = 2"
| "itemsize Float32 = 4"
| "itemsize Float64 = 8"
| "itemsize Complex64 = 8"
| "itemsize Complex128 = 16"

text \<open>
  What \<open>self.dtype\<close> and the argument of \<open>set_dtype\<close> can hold: a scalar type, or a dtype
  object, which is a scalar type with a byte order (native, or swapped as in \<open>'>f4'\<close> on a
  little-endian machine). \<open>np.dtype(v)\<close> is \<open>(ref_type v, ref_order v)\<close>.
\<close>

datatype byteorder = Native | Swapped

datatype dtype_ref = Type dtype | Descr dtype byteorder

fun ref_type :: "dtype_ref \<Rightarrow> dtype" where
  "ref_type (Type t) = t"
| "ref_type (Descr t bo) = t"

fun ref_order :: "dtype_ref \<Rightarrow> byteorder" where
  "ref_order (Type t) = Native"
| "ref_order (Descr t bo) = bo"

text \<open>
  \<open>v == u\<close> for a scalar type \<open>u\<close>: two scalar types are equal when they are the same type;
  a dtype object is compared with \<open>np.dtype(u)\<close>, the native dtype of \<open>u\<close>.
\<close>

fun eq_type :: "dtype_ref \<Rightarrow> dtype \<Rightarrow> bool" where
  "eq_type (Type t) u = (t = u)"
| "eq_type (Descr t bo) u = (t = u \<and> bo = Native)"

text \<open>\<open>v in self.dtypes\<close>, for the list of scalar types \<open>self.dtypes\<close>.\<close>

fun py_in :: "dtype_ref \<Rightarrow> dtype list \<Rightarrow> bool" where
  "py_in (Type t) ts = (t \<in> set ts)"
| "py_in (Descr t bo) ts = (bo = Native \<and> t \<in> set ts)"

text \<open>
  \<open>v is w\<close>. The scalar types and the dtype objects of native byte order are unique objects
  of numpy, so that on them identity is equality; a byte-swapped dtype object is created
  anew wherever one is made, and is not the object that another place holds.
\<close>

fun py_is :: "dtype_ref \<Rightarrow> dtype_ref \<Rightarrow> bool" where
  "py_is (Descr t Swapped) w = False"
| "py_is v w = (v = w)"

text \<open>
  An array: its scalar type (\<open>data.dtype.type\<close>), its byte order and its shape;
  \<open>arr_descr\<close> is \<open>data.dtype\<close>.
\<close>

record ndarray =
  arr_dtype :: dtype
  arr_byteorder :: byteorder
  arr_shape :: "nat list"

definition arr_descr :: "ndarray \<Rightarrow> dtype_ref" where
  "arr_descr a = Descr (arr_dtype a) (arr_byteorder a)"

definition nbytes :: "ndarray \<Rightarrow> nat" where
  "nbytes a = prod_list (arr_shape a) * itemsize (arr_dtype a)"

definition astype :: "ndarray \<Rightarrow> dtype_ref \<Rightarrow> ndarray" where
  "astype a v = a\<lparr>arr_dtype := ref_type v, arr_byteorder := ref_order v\<rparr>"

datatype error =
  NotImplementedError "dtype list" dtype_ref
  | ZeroDivisionError
  | KeyError
  | ValueError
  | IndexError
  | AttributeError
  | LinAlgError

text \<open>
  A slice object \<open>slice(start, stop, step)\<close> is the triple of its fields. Along an axis of
  length \<open>n\<close> a slice with \<open>start = 0\<close> selects the indices \<open>0, step, 2*step, ...\<close> below
  \<open>min stop n\<close>.
\<close>

type_synonym slice = "nat \<times> nat \<times> nat"

fun slice_len :: "slice \<Rightarrow> nat \<Rightarrow> nat" where
  "slice_len (start, stop, step) n = (min stop n - start + step - 1) div step"

text \<open>
  \<open>data[slices]\<close> with a list of slice objects (numpy of the Python 2 era reads the list as
  a tuple of slices): one slice per leading axis, the other axes whole. More slices than
  axes is an IndexError, a slice of step 0 a ValueError.
\<close>

definition getitem :: "ndarray \<Rightarrow> slice list \<Rightarrow> error + ndarray" where
  "getitem a ss =
     (if length (arr_shape a) < length ss then Inl IndexError
      else if 0 \<in> set (map (\<lambda>(start, stop, step). step) ss) then Inl ValueError
      else Inr (a\<lparr>arr_shape :=
             map2 slice_len ss (take (length ss) (arr_shape a)) @ drop (length ss) (arr_shape a)\<rparr>))"

subsection \<open>Downsampling stride\<close>

text \<open>\<open>int(np.ceil(np.sqrt(1.*data.nbytes/self.memMax)))\<close>, for \<open>memMax\<close> not 0.\<close>

definition Nstep_of :: "nat \<Rightarrow> nat \<Rightarrow> nat" where
  "Nstep_of nb mm = nat \<lceil>sqrt (real nb / real mm)\<rceil>"

subsection \<open>Matrices and the external functions\<close>

type_synonym mat = "real list list"

text \<open>
  Modelled from the spec: \<open>mat4_identity\<close> and \<open>mat4_scale\<close> of the module
  \<open>spimagine.transform_matrices\<close>, which the file imports: the 4x4 identity and the
  diagonal scale matrix of three factors.
\<close>

definition mat4_scale :: "real \<Rightarrow> real \<Rightarrow> real \<Rightarrow> mat" where
  "mat4_scale x y z = [[x, 0, 0, 0], [0, y, 0, 0], [0, 0, z, 0], [0, 0, 0, 1]]"

definition mat4_identity :: mat where
  "mat4_identity = [[1, 0, 0, 0], [0, 1, 0, 0], [0, 0, 1, 0], [0, 0, 0, 1]]"

text \<open>
  The truth value of a numpy array, as \<open>not modelView\<close> asks for it: an array of more than
  one element raises ValueError, an array of one element is its element, an empty one is
  False.
\<close>

definition array_bool :: "mat \<Rightarrow> error + bool" where
  "array_bool m =
     (case concat m of [] \<Rightarrow> Inr False | [x] \<Rightarrow> Inr (x \<noteq> 0) | _ # _ # _ \<Rightarrow> Inl ValueError)"

record image =
  img_shape :: "nat list"
  channel_type :: dtype
  channel_order_Rx :: bool
  img_written :: "ndarray option"

text \<open>The arguments of one dispatch of the kernel \<open>max_project\<close>, the output buffer apart.\<close>

record kernel_args =
  k_width :: nat
  k_height :: nat
  k_bounds :: "real list"
  k_maxVal :: real
  k_gamma :: real
  k_invP :: "real list"
  k_invM :: "real list"
  k_img :: image
  k_isUint16 :: bool

text \<open>
  Modelled from the spec: the kernel \<open>max_project\<close> of kernels/volume_render.cl, "writing
  width x height float32 values into the output buffer": \<open>max_project a i\<close> is the value
  written at index \<open>i\<close>.
\<close>

record external =
  np_dot :: "mat \<Rightarrow> mat \<Rightarrow> error + mat"
  linalg_inv :: "mat \<Rightarrow> error + mat"
  max_project :: "kernel_args \<Rightarrow> nat \<Rightarrow> real"

subsection \<open>The renderer object\<close>

text \<open>
  Attributes that can be missing when they are read are options (\<open>dataSlices\<close> is
  missing, \<open>None\<close> or a list of slices). \<open>dispatched\<close> is a ghost
  field: the log of the kernel dispatches of \<open>self.proc\<close>. A buffer that
  \<open>createBuffer\<close> returns is taken to be zero-filled.
\<close>

record renderer =
  isGPU :: bool
  dtypes :: "dtype list"
  memMax :: nat
  invMBuf :: "real list"
  invPBuf :: "real list"
  width :: nat
  height :: nat
  buf :: "real list"
  dtype :: "dtype_ref option"
  gamma :: real
  maxVal :: real
  boxBounds :: "real list"
  stackUnits :: "real list"
  modelView :: "mat option"
  projection :: mat
  dataSlices :: "slice list option option"
  dataImg :: "image option"
  p_data :: "ndarray option"
  dispatched :: "kernel_args list"

definition reset_buffer :: "renderer \<Rightarrow> renderer" where
  "reset_buffer s = s\<lparr>buf := replicate (height s * width s) 0\<rparr>"

definition resize :: "nat \<times> nat \<Rightarrow> renderer \<Rightarrow> renderer" where
  "resize sz s = reset_buffer (s\<lparr>width := fst sz, height := snd sz\<rparr>)"

definition set_dtype :: "dtype_ref option \<Rightarrow> renderer \<Rightarrow> (error + unit) \<times> renderer" where
  "set_dtype dt s =
     (if (case (dtype s, dt) of (Some w, Some v) \<Rightarrow> py_is v w | _ \<Rightarrow> False) then (Inr (), s)
      else case (case dt of
                   None \<Rightarrow> (case dtypes s of [] \<Rightarrow> Inl IndexError | t # _ \<Rightarrow> Inr (Type t))
                 | Some v \<Rightarrow> Inr v) of
             Inl e \<Rightarrow> (Inl e, s)
           | Inr v \<Rightarrow>
               if py_in v (dtypes s) then (Inr (), reset_buffer (s\<lparr>dtype := Some v\<rparr>))
               else (Inl (NotImplementedError (dtypes s) v), s))"

definition get_downsampled_data_slices :: "ndarray \<Rightarrow> renderer \<Rightarrow> error + slice list option" where
  "get_downsampled_data_slices d s =
     (if memMax s = 0 then Inl ZeroDivisionError
      else let Nstep = Nstep_of (nbytes d) (memMax s);
               slices = map (\<lambda>n. (0, n, Nstep)) (arr_shape d)
           in if Nstep > 1 then Inr (Some slices) else Inr None)"

definition set_max_val :: "real \<Rightarrow> renderer \<Rightarrow> renderer" where
  "set_max_val v s = s\<lparr>maxVal := v\<rparr>"

definition set_gamma :: "real \<Rightarrow> renderer \<Rightarrow> renderer" where
  "set_gamma g s = s\<lparr>gamma := g\<rparr>"

text \<open>
  \<open>cl_datatype_dict\<close> of the package PyOCL is a dict that the source reads with the scalar
  types of \<open>self.dtypes\<close>: \<open>cl_datatype_dict[self.dtype]\<close> is the channel type named after
  the scalar type. A dtype object does not hash as a scalar type does and is no key of the
  dict: KeyError.
\<close>

definition set_shape :: "nat list \<Rightarrow> renderer \<Rightarrow> (error + unit) \<times> renderer" where
  "set_shape dataShape s =
     (case dtype s of
        None \<Rightarrow> (Inl AttributeError, s)
      | Some (Descr t bo) \<Rightarrow> (Inl KeyError, s)
      | Some (Type t) \<Rightarrow>
          (Inr (), s\<lparr>dataImg := Some \<lparr>img_shape = dataShape, channel_type = t,
                                      channel_order_Rx = \<not> isGPU s, img_written = None\<rparr>\<rparr>))"

definition update_data :: "ndarray \<Rightarrow> bool \<Rightarrow> renderer \<Rightarrow> (error + unit) \<times> renderer" where
  "update_data d copyData s =
     (case (case dataSlices s of
              None \<Rightarrow> Inl AttributeError
            | Some None \<Rightarrow> Inr d
            | Some (Some ss) \<Rightarrow> getitem d ss) of
        Inl e \<Rightarrow> (Inl e, s)
      | Inr d1 \<Rightarrow>
          let s1 = s\<lparr>p_data := Some d1\<rparr> in
          (case dtype s1 of
             None \<Rightarrow> (Inl AttributeError, s1)
           | Some v \<Rightarrow>
               let d2 = (if arr_dtype d1 \<noteq> ref_type v \<or> arr_byteorder d1 \<noteq> ref_order v
                         then astype d1 v else d1);
                   s2 = s1\<lparr>p_data := Some d2\<rparr>
               in (case dataImg s2 of
                     None \<Rightarrow> (Inl AttributeError, s2)
                   | Some img \<Rightarrow> (Inr (), s2\<lparr>dataImg := Some (img\<lparr>img_written := Some d2\<rparr>)\<rparr>))))"

text \<open>Lines 174 to 180 of \<open>set_data\<close>, on the array \<open>_data\<close> of the source.\<close>

definition set_data_upload :: "ndarray \<Rightarrow> bool \<Rightarrow> renderer \<Rightarrow> (error + unit) \<times> renderer" where
  "set_data_upload d' copyData s1 =
     (case get_downsampled_data_slices d' s1 of
        Inl e \<Rightarrow> (Inl e, s1)
      | Inr sl \<Rightarrow>
          let s2 = s1\<lparr>dataSlices := Some sl\<rparr> in
          (case (case sl of Some ss \<Rightarrow> getitem d' ss | None \<Rightarrow> Inr d') of
             Inl e \<Rightarrow> (Inl e, s2)
           | Inr shaped \<Rightarrow>
               (case set_shape (rev (arr_shape shaped)) s2 of
                  (Inl e, s3) \<Rightarrow> (Inl e, s3)
                | (Inr u, s3) \<Rightarrow> update_data d' copyData s3)))"

definition set_data :: "ndarray \<Rightarrow> bool \<Rightarrow> bool \<Rightarrow> renderer \<Rightarrow> (error + unit) \<times> renderer" where
  "set_data d autoConvert copyData s =
     (if \<not> autoConvert \<and> \<not> py_in (arr_descr d) (dtypes s)
      then (Inl (NotImplementedError (dtypes s) (arr_descr d)), s)
      else case (if py_in (Type (arr_dtype d)) (dtypes s)
                 then (case set_dtype (Some (Type (arr_dtype d))) s of
                         (Inl e, s1) \<Rightarrow> (Inl e, s1)
                       | (Inr u, s1) \<Rightarrow> (Inr d, s1))
                 else (case dtype s of
                         None \<Rightarrow> (Inl AttributeError, s)
                       | Some v \<Rightarrow> (Inr (astype d v), s))) of
             (Inl e, s1) \<Rightarrow> (Inl e, s1)
           | (Inr d', s1) \<Rightarrow> set_data_upload d' copyData s1)"

definition set_box_boundaries :: "real list \<Rightarrow> renderer \<Rightarrow> renderer" where
  "set_box_boundaries b s = s\<lparr>boxBounds := b\<rparr>"

definition set_units :: "real list \<Rightarrow> renderer \<Rightarrow> renderer" where
  "set_units u s = s\<lparr>stackUnits := u\<rparr>"

definition set_projection :: "mat \<Rightarrow> renderer \<Rightarrow> renderer" where
  "set_projection p s = s\<lparr>projection := p\<rparr>"

definition set_modelView :: "mat \<Rightarrow> renderer \<Rightarrow> renderer" where
  "set_modelView m s = s\<lparr>modelView := Some (map (map (\<lambda>x. 1 * x)) m)\<rparr>"


text \<open>
  The result of \<open>_stack_scale_mat\<close>: numpy divides by \<open>maxDim = 0\<close> without raising and
  yields inf or nan in all three factors.
\<close>

datatype scale = Scale mat | NonFinite

definition stack_scale_mat :: "renderer \<Rightarrow> error + scale" where
  "stack_scale_mat s =
     (case dataImg s of
        None \<Rightarrow> Inl AttributeError
      | Some img \<Rightarrow>
          (case img_shape img of
             [Nx, Ny, Nz] \<Rightarrow>
               (case stackUnits s of
                  [dx, dy, dz] \<Rightarrow>
                    let maxDim = max (dx * real Nx) (max (dy * real Ny) (dz * real Nz)) in
                    if maxDim = 0 then Inr NonFinite
                    else Inr (Scale (mat4_scale (1 * dx * real Nx / maxDim)
                                                (1 * dy * real Ny / maxDim)
                                                (1 * dz * real Nz / maxDim)))
                | _ \<Rightarrow> Inl ValueError)
           | _ \<Rightarrow> Inl ValueError))"

record out_array =
  out_shape :: "nat list"
  out_data :: "real list"

text \<open>\<open>self.dev.readBuffer(self.buf,dtype = np.float32).reshape(self.width,self.height)\<close>\<close>

definition read_output :: "renderer \<Rightarrow> error + out_array" where
  "read_output s =
     (if length (buf s) = width s * height s
      then Inr \<lparr>out_shape = [width s, height s], out_data = buf s\<rparr>
      else Inl ValueError)"

definition kernel_arguments :: "image \<Rightarrow> renderer \<Rightarrow> error + kernel_args" where
  "kernel_arguments img s =
     (if length (boxBounds s) < 6 then Inl IndexError
      else Inr \<lparr>k_width = width s, k_height = height s, k_bounds = take 6 (boxBounds s),
                k_maxVal = maxVal s, k_gamma = gamma s,
                k_invP = invPBuf s, k_invM = invMBuf s,
                k_img = img,
                k_isUint16 = (case dtype s of None \<Rightarrow> False | Some v \<Rightarrow> eq_type v UInt16)\<rparr>)"

text \<open>Lines 268 to 297 of \<open>render\<close>: the matrices, the dispatch and the read-back.\<close>

definition render_dispatch :: "external \<Rightarrow> renderer \<Rightarrow> (error + out_array) \<times> renderer" where
  "render_dispatch ext s =
     (case stack_scale_mat s of
        Inl e \<Rightarrow> (Inl e, s)
      | Inr mScale \<Rightarrow>
          (case modelView s of
             None \<Rightarrow> (Inl AttributeError, s)
           | Some mv \<Rightarrow>
               (case (case mScale of
                        NonFinite \<Rightarrow> Inl ValueError
                      | Scale sc \<Rightarrow>
                          (case np_dot ext mv sc of
                             Inl e \<Rightarrow> Inl e
                           | Inr m \<Rightarrow> linalg_inv ext m)) of
                  Inl e \<Rightarrow> (Inl e, s)
                | Inr invM \<Rightarrow>
                    let s1 = s\<lparr>invMBuf := concat invM\<rparr> in
                    (case linalg_inv ext (projection s1) of
                       Inl e \<Rightarrow> (Inl e, s1)
                     | Inr invP \<Rightarrow>
                         let s2 = s1\<lparr>invPBuf := concat invP\<rparr> in
                         (case dataImg s2 of
                            None \<Rightarrow> (Inl AttributeError, s2)
                          | Some img \<Rightarrow>
                              (case kernel_arguments img s2 of
                                 Inl e \<Rightarrow> (Inl e, s2)
                               | Inr a \<Rightarrow>
                                   let s3 = s2\<lparr>buf := map (max_project ext a)
                                                          [0 ..< width s2 * height s2],
                                                dispatched := dispatched s2 @ [a]\<rparr>
                                   in (read_output s3, s3)))))))"

text \<open>The keyword arguments of \<open>render\<close>; \<open>None\<close> is the default of each.\<close>

record overrides =
  o_data :: "ndarray option"
  o_stackUnits :: "real list option"
  o_maxVal :: "real option"
  o_gamma :: "real option"
  o_modelView :: "mat option"
  o_projection :: "mat option"
  o_boxBounds :: "real list option"

definition no_overrides :: overrides where
  "no_overrides = \<lparr>o_data = None, o_stackUnits = None, o_maxVal = None, o_gamma = None,
                    o_modelView = None, o_projection = None, o_boxBounds = None\<rparr>"

text \<open>Lines 245 to 258 of \<open>render\<close>: the setters of the overrides that are given.\<close>

definition render_setters :: "overrides \<Rightarrow> renderer \<Rightarrow> renderer" where
  "render_setters ov s1 =
     (let s2 = (case o_maxVal ov of None \<Rightarrow> s1 | Some v \<Rightarrow> set_max_val v s1);
          s3 = (case o_gamma ov of None \<Rightarrow> s2 | Some g \<Rightarrow> set_gamma g s2);
          s4 = (case o_stackUnits ov of None \<Rightarrow> s3 | Some su \<Rightarrow> set_units su s3);
          s5 = (case o_modelView ov of None \<Rightarrow> s4 | Some m \<Rightarrow> set_modelView m s4)
      in (case o_projection ov of None \<Rightarrow> s5 | Some p \<Rightarrow> set_projection p s5))"

definition render :: "external \<Rightarrow> overrides \<Rightarrow> renderer \<Rightarrow> (error + out_array) \<times> renderer" where
  "render ext ov s =
     (case (case o_data ov of None \<Rightarrow> (Inr (), s) | Some d \<Rightarrow> set_data d True False s) of
        (Inl e, s1) \<Rightarrow> (Inl e, s1)
      | (Inr u, s1) \<Rightarrow>
          let s6 = render_setters ov s1
          in (case dataImg s6 of
                None \<Rightarrow> (read_output s6, s6)
              | Some img \<Rightarrow>
                  (case (case o_modelView ov of
                           None \<Rightarrow> Inr True
                         | Some m \<Rightarrow> (case array_bool m of Inl e \<Rightarrow> Inl e | Inr b \<Rightarrow> Inr (\<not> b))) of
                     Inl e \<Rightarrow> (Inl e, s6)
                   | Inr not_modelView \<Rightarrow>
                       if not_modelView \<and> modelView s6 = None then (read_output s6, s6)
                       else render_dispatch ext s6)))"

subsection \<open>Construction\<close>

text \<open>
  The attributes that \<open>__init__\<close> assigns before it calls \<open>resize\<close>; the others have
  placeholders that the calls of \<open>__init__\<close> overwrite, or are missing.
\<close>

definition blank :: "bool \<Rightarrow> dtype list \<Rightarrow> nat \<Rightarrow> renderer" where
  "blank g dts mm =
     \<lparr>isGPU = g, dtypes = dts, memMax = mm,
      invMBuf = replicate 16 0, invPBuf = replicate 16 0,
      width = 0, height = 0, buf = [], dtype = None, gamma = 0, maxVal = 0,
      boxBounds = [], stackUnits = [], modelView = None, projection = [],
      dataSlices = None, dataImg = None, p_data = None, dispatched = []\<rparr>"

text \<open>
  \<open>VolumeRenderer(size)\<close>. \<open>gpu\<close> and \<open>cpu\<close> are the MAX_MEM_ALLOC_SIZE of the GPU and of the
  CPU OpenCL device, \<open>None\<close> where \<open>OCLDevice\<close> raises. With neither, \<open>self.dev\<close> is
  never assigned and reading it raises.
\<close>

definition VolumeRenderer :: "nat option \<Rightarrow> nat option \<Rightarrow> (nat \<times> nat) option \<Rightarrow> error + renderer" where
  "VolumeRenderer gpu cpu sz =
     (case (case gpu of
              Some mm \<Rightarrow> Some (blank True [Float32, UInt16] mm)
            | None \<Rightarrow> (case cpu of
                         Some mm \<Rightarrow> Some (blank False [Float32] mm)
                       | None \<Rightarrow> None)) of
        None \<Rightarrow> Inl AttributeError
      | Some s0 \<Rightarrow>
          let s1 = (case sz of Some z \<Rightarrow> resize z s0 | None \<Rightarrow> resize (200, 200) s0) in
          (case set_dtype None s1 of
             (Inl e, s2) \<Rightarrow> Inl e
           | (Inr u, s2) \<Rightarrow>
               Inr (set_projection mat4_identity
                     (set_modelView mat4_identity
                       (set_units [1, 1, 1]
                         (set_box_boundaries [-1, 1, -1, 1, -1, 1]
                           (set_max_val 0 (set_gamma 1 s2))))))))"

subsection \<open>Observations used in the statements\<close>

text \<open>The array that the last \<open>writeImage\<close> put into the device image, if any.\<close>

definition uploaded :: "renderer \<Rightarrow> ndarray option" where
  "uploaded s = (case dataImg s of None \<Rightarrow> None | Some img \<Rightarrow> img_written img)"

text \<open>The shape of the array that a call returned, if it returned one.\<close>

definition result_shape :: "error + out_array \<Rightarrow> nat list option" where
  "result_shape r = (case r of Inl e \<Rightarrow> None | Inr a \<Rightarrow> Some (out_shape a))"

text \<open>
  The state that the part of \<open>set_data\<close> after the dtype decision leaves, in closed form,
  for the array \<open>a\<close> that this part works on (\<open>_data\<close> in the source) when the stored
  dtype is the scalar type of \<open>a\<close>. Used in lemmas only.
\<close>

definition strided_shape :: "nat \<Rightarrow> nat list \<Rightarrow> nat list" where
  "strided_shape n sh = (if 1 < n then map (\<lambda>N. (N + n - 1) div n) sh else sh)"

definition uploaded_state :: "ndarray \<Rightarrow> renderer \<Rightarrow> renderer" where
  "uploaded_state a s =
     (let n = Nstep_of (nbytes a) (memMax s);
          up = a\<lparr>arr_byteorder := Native, arr_shape := strided_shape n (arr_shape a)\<rparr>
      in s\<lparr>dataSlices := Some (if 1 < n then Some (map (\<lambda>N. (0, N, n)) (arr_shape a)) else None),
           dataImg := Some \<lparr>img_shape = rev (arr_shape up), channel_type = arr_dtype a,
                             channel_order_Rx = \<not> isGPU s, img_written = Some up\<rparr>,
           p_data := Some up\<rparr>)"

text \<open>
  The two parts of the dtype invariant: the stored dtype is one of the supported ones, and
  the device image and the array written to it have the stored dtype.
\<close>

definition dtype_supported :: "renderer \<Rightarrow> bool" where
  "dtype_supported s = (case dtype s of None \<Rightarrow> False | Some v \<Rightarrow> py_in v (dtypes s))"

definition upload_matches_dtype :: "renderer \<Rightarrow> bool" where
  "upload_matches_dtype s =
     (case dataImg s of
        None \<Rightarrow> False
      | Some img \<Rightarrow> dtype s = Some (Type (channel_type img)) \<and>
                    map_option arr_descr (img_written img) = Some (Descr (channel_type img) Native))"

subsection \<open>Concrete inputs\<close>

text \<open>
  A renderer on a GPU whose largest allocation is 64 bytes, with a 2 x 3 output, as
  \<open>VolumeRenderer((2,3))\<close> constructs it, and three small volumes in native byte order.
\<close>

definition r0 :: renderer where
  "r0 = (case VolumeRenderer (Some 64) None (Some (2, 3)) of
           Inr r \<Rightarrow> r
         | Inl e \<Rightarrow> blank True [] 0)"

definition vol_u8 :: ndarray where
  "vol_u8 = \<lparr>arr_dtype = UInt8, arr_byteorder = Native, arr_shape = [4, 4, 4]\<rparr>"

definition vol_f32 :: ndarray where
  "vol_f32 = \<lparr>arr_dtype = Float32, arr_byteorder = Native, arr_shape = [4, 4, 4]\<rparr>"



text \<open>
  External functions for the concrete runs: a matrix product and an inverse that know the
  identity matrix only (and raise otherwise), and a kernel that writes the pixel index
  scaled by gamma.
\<close>

definition dot0 :: "mat \<Rightarrow> mat \<Rightarrow> error + mat" where
  "dot0 a b = (if b = mat4_identity then Inr a
               else if a = mat4_identity then Inr b else Inl ValueError)"

definition inv0 :: "mat \<Rightarrow> error + mat" where
  "inv0 m = (if m = mat4_identity then Inr m else Inl LinAlgError)"

definition kern0 :: "kernel_args \<Rightarrow> nat \<Rightarrow> real" where
  "kern0 a i = k_gamma a * real i"

definition ext0 :: external where
  "ext0 = \<lparr>np_dot = dot0, linalg_inv = inv0, max_project = kern0\<rparr>"

text \<open>The state after a sequence of \<open>render\<close> calls, one per element of the list.\<close>

definition renders :: "external \<Rightarrow> overrides list \<Rightarrow> renderer \<Rightarrow> renderer" where
  "renders ext ovs s = fold (\<lambda>ov t. snd (render ext ov t)) ovs s"

text \<open>A renderer with a volume uploaded, and a \<open>render\<close> call that overrides gamma.\<close>

definition r1 :: renderer where
  "r1 = snd (set_data vol_f32 True False r0)"

definition ov_gamma :: overrides where
  "ov_gamma = no_overrides\<lparr>o_gamma := Some 2\<rparr>"

definition ov_modelView :: overrides where
  "ov_modelView = no_overrides\<lparr>o_modelView := Some mat4_identity\<rparr>"

section \<open>Properties\<close>

subsection \<open>The stride as an integer bound\<close>

lemma Nstep_of_zero: "Nstep_of 0 mm = 0"
  by (simp add: Nstep_of_def)

lemma Nstep_of_le:
  assumes "0 < mm"
  shows "Nstep_of nb mm \<le> m \<longleftrightarrow> nb \<le> m * m * mm"
proof -
  have "Nstep_of nb mm \<le> m \<longleftrightarrow> \<lceil>sqrt (real nb / real mm)\<rceil> \<le> int m"
    by (simp add: Nstep_of_def nat_le_iff)
  also have "\<dots> \<longleftrightarrow> sqrt (real nb / real mm) \<le> real m"
    by (simp add: ceiling_le_iff)
  also have "\<dots> \<longleftrightarrow> real nb / real mm \<le> (real m)\<^sup>2"
  proof
    assume "sqrt (real nb / real mm) \<le> real m"
    then show "real nb / real mm \<le> (real m)\<^sup>2" by (rule sqrt_le_D)
  next
    assume "real nb / real mm \<le> (real m)\<^sup>2"
    then show "sqrt (real nb / real mm) \<le> real m" by (simp add: real_le_lsqrt)
  qed
  also have "\<dots> \<longleftrightarrow> real nb \<le> real (m * m * mm)"
    using assms by (simp add: pos_divide_le_eq power2_eq_square)
  also have "\<dots> \<longleftrightarrow> nb \<le> m * m * mm"
    by (simp only: of_nat_le_iff)
  finally show ?thesis .
qed

lemma Nstep_of_eqI:
  assumes "0 < mm" "nb \<le> n * n * mm" "(n - 1) * (n - 1) * mm < nb"
  shows "Nstep_of nb mm = n"
proof -
  have le: "Nstep_of nb mm \<le> n"
    using assms by (simp add: Nstep_of_le)
  have "\<not> Nstep_of nb mm \<le> n - 1"
    using assms by (simp add: Nstep_of_le)
  with le show ?thesis by arith
qed

lemma Nstep_of_one: "0 < nb \<Longrightarrow> nb \<le> mm \<Longrightarrow> Nstep_of nb mm = 1"
  by (rule Nstep_of_eqI) simp_all

lemma Nstep_of_multiple: "0 < mm \<Longrightarrow> Nstep_of (k * mm) mm = nat \<lceil>sqrt (real k)\<rceil>"
  by (simp add: Nstep_of_def)

lemma ceil_div_nat:
  assumes "0 < n"
  shows "nat \<lceil>real N / real n\<rceil> = (N + n - 1) div n"
proof -
  define q where "q = (N + n - 1) div n"
  have lo: "q * n \<le> N + n - 1"
    by (simp add: q_def)
  have hi: "N + n - 1 < n + q * n"
    using assms unfolding q_def by (rule dividend_less_div_times)
  from hi assms have "N \<le> q * n" by arith
  then have "real N \<le> real (q * n)" by (simp only: of_nat_le_iff)
  then have up: "real N / real n \<le> real q"
    using assms by (simp add: pos_divide_le_eq)
  from lo assms have "q * n < N + n" by arith
  then have "real (q * n) < real (N + n)" by (simp only: of_nat_less_iff)
  then have "(real q - 1) * real n < real N" by (simp add: algebra_simps)
  then have low: "real q - 1 < real N / real n"
    using assms by (simp add: pos_less_divide_eq)
  have "\<lceil>real N / real n\<rceil> = int q"
    using low up by (intro ceiling_unique) simp_all
  then show ?thesis by (simp add: q_def)
qed

text \<open>An executable form of the stride: the least \<open>n\<close> with \<open>nb \<le> n * n * mm\<close>.\<close>

lemma takeWhile_less_upt: "takeWhile (\<lambda>n. n < N) [0 ..< M] = [0 ..< min N M]"
proof (induction M)
  case 0
  then show ?case by simp
next
  case (Suc M)
  show ?case
  proof (cases "N \<le> M")
    case True
    show ?thesis
    proof (cases "N = M")
      case True
      then show ?thesis by (simp add: takeWhile_append)
    next
      case False
      with \<open>N \<le> M\<close> have "N < M" by simp
      with Suc show ?thesis by (auto simp: takeWhile_append min_def)
    qed
  next
    case False
    then have "min N (Suc M) = Suc M" "min N M = M" by simp_all
    with Suc False show ?thesis by (simp add: takeWhile_append)
  qed
qed

lemma Nstep_of_code [code]:
  "Nstep_of nb mm =
     (if mm = 0 then 0 else length (takeWhile (\<lambda>n. n * n * mm < nb) [0 ..< Suc nb]))"
proof (cases "mm = 0")
  case True
  then show ?thesis by (simp add: Nstep_of_def)
next
  case False
  then have pos: "0 < mm" by simp
  have iff: "n * n * mm < nb \<longleftrightarrow> n < Nstep_of nb mm" for n
    using Nstep_of_le [OF pos, of nb n] by auto
  have "Nstep_of nb mm \<le> nb"
    using pos by (simp add: Nstep_of_le)
  then show ?thesis
    using False by (simp add: iff takeWhile_less_upt min_def del: upt_Suc)
qed

subsection \<open>What \<open>set_dtype\<close> and \<open>set_data\<close> leave\<close>

lemma map2_slices:
  "map2 slice_len (map (\<lambda>N. (0, N, n)) sh) sh = map (\<lambda>N. (N + n - 1) div n) sh"
  by (induction sh) simp_all

lemma getitem_strided:
  "0 < n \<Longrightarrow> getitem a (map (\<lambda>N. (0, N, n)) (arr_shape a)) =
     Inr (a\<lparr>arr_shape := map (\<lambda>N. (N + n - 1) div n) (arr_shape a)\<rparr>)"
  by (auto simp: getitem_def map2_slices)

lemma set_dtype_supported:
  "t \<in> set (dtypes s) \<Longrightarrow>
     set_dtype (Some (Type t)) s =
       (Inr (), if dtype s = Some (Type t) then s
                else reset_buffer (s\<lparr>dtype := Some (Type t)\<rparr>))"
  by (auto simp: set_dtype_def split: option.splits)

lemma set_data_tail:
  assumes mm: "0 < memMax s1" and dt: "dtype s1 = Some (Type (arr_dtype a))"
  shows "set_data_upload a copyData s1 = (Inr (), uploaded_state a s1)"
proof (cases "1 < Nstep_of (nbytes a) (memMax s1)")
  case True
  then have pos: "0 < Nstep_of (nbytes a) (memMax s1)" by simp
  define b where "b = a\<lparr>arr_shape := map (\<lambda>N. (N + Nstep_of (nbytes a) (memMax s1) - 1) div
                                            Nstep_of (nbytes a) (memMax s1)) (arr_shape a)\<rparr>"
  have gd: "get_downsampled_data_slices a s1 =
      Inr (Some (map (\<lambda>N. (0, N, Nstep_of (nbytes a) (memMax s1))) (arr_shape a)))"
    using mm True by (simp add: get_downsampled_data_slices_def)
  have gi: "getitem a (map (\<lambda>N. (0, N, Nstep_of (nbytes a) (memMax s1))) (arr_shape a)) = Inr b"
    unfolding b_def by (rule getitem_strided [OF pos])
  have b: "arr_dtype b = arr_dtype a" "arr_shape b = strided_shape (Nstep_of (nbytes a) (memMax s1)) (arr_shape a)"
    using True by (simp_all add: b_def strided_shape_def)
  have conv: "(if arr_byteorder b \<noteq> Native then astype b (Type (arr_dtype a)) else b) =
      a\<lparr>arr_byteorder := Native,
        arr_shape := strided_shape (Nstep_of (nbytes a) (memMax s1)) (arr_shape a)\<rparr>"
    using True by (cases a) (auto simp: b_def strided_shape_def astype_def)
  show ?thesis
    using True dt
    by (simp add: set_data_upload_def gd gi set_shape_def update_data_def uploaded_state_def
        Let_def b conv)
next
  case False
  have gd: "get_downsampled_data_slices a s1 = Inr None"
    using mm False by (simp add: get_downsampled_data_slices_def)
  have conv: "(if arr_byteorder a \<noteq> Native then astype a (Type (arr_dtype a)) else a) =
      a\<lparr>arr_byteorder := Native, arr_shape := strided_shape (Nstep_of (nbytes a) (memMax s1)) (arr_shape a)\<rparr>"
    using False by (cases a) (auto simp: strided_shape_def astype_def)
  show ?thesis
    using False dt
    by (simp add: set_data_upload_def gd set_shape_def update_data_def uploaded_state_def
        Let_def conv) (simp add: strided_shape_def)
qed

lemma set_data_supported:
  assumes "0 < memMax s" "arr_dtype d \<in> set (dtypes s)"
    and "autoConvert \<or> arr_byteorder d = Native"
  shows "set_data d autoConvert copyData s =
           (Inr (), uploaded_state d (snd (set_dtype (Some (Type (arr_dtype d))) s)))"
proof -
  let ?s1 = "if dtype s = Some (Type (arr_dtype d)) then s
             else reset_buffer (s\<lparr>dtype := Some (Type (arr_dtype d))\<rparr>)"
  have sd: "set_dtype (Some (Type (arr_dtype d))) s = (Inr (), ?s1)"
    using assms by (simp add: set_dtype_supported)
  have "0 < memMax ?s1" "dtype ?s1 = Some (Type (arr_dtype d))"
    using assms by (simp_all add: reset_buffer_def)
  from set_data_tail [OF this, of copyData] show ?thesis
    using assms(2,3) by (auto simp: set_data_def sd arr_descr_def)
qed

lemma set_data_converted:
  assumes "0 < memMax s" "arr_dtype d \<notin> set (dtypes s)" "dtype s = Some (Type t)"
  shows "set_data d True copyData s = (Inr (), uploaded_state (astype d (Type t)) s)"
proof -
  have "0 < memMax s" "dtype s = Some (Type (arr_dtype (astype d (Type t))))"
    using assms by (simp_all add: astype_def)
  from set_data_tail [OF this, of copyData] show ?thesis
    using assms by (simp add: set_data_def)
qed


subsection \<open>The constructed renderer and the uploaded array\<close>

lemma r0_eq:
  "r0 = \<lparr>isGPU = True, dtypes = [Float32, UInt16], memMax = 64,
      invMBuf = replicate 16 0, invPBuf = replicate 16 0,
      width = 2, height = 3, buf = replicate 6 0, dtype = Some (Type Float32), gamma = 1, maxVal = 0,
      boxBounds = [-1, 1, -1, 1, -1, 1], stackUnits = [1, 1, 1],
      modelView = Some mat4_identity, projection = mat4_identity,
      dataSlices = None, dataImg = None, p_data = None, dispatched = []\<rparr>"
  by (simp add: r0_def VolumeRenderer_def blank_def resize_def reset_buffer_def set_dtype_def
      set_gamma_def set_max_val_def set_box_boundaries_def set_units_def set_modelView_def
      set_projection_def mat4_identity_def)

lemma r0_constructed: "VolumeRenderer (Some 64) None (Some (2, 3)) = Inr r0"
  by (simp add: r0_def VolumeRenderer_def blank_def resize_def reset_buffer_def set_dtype_def)

lemma uploaded_uploaded_state:
  "uploaded (uploaded_state a s) =
     Some (a\<lparr>arr_byteorder := Native,
             arr_shape := strided_shape (Nstep_of (nbytes a) (memMax s)) (arr_shape a)\<rparr>)"
  by (simp add: uploaded_def uploaded_state_def Let_def)

lemma dataSlices_uploaded_state:
  "dataSlices (uploaded_state a s) =
     Some (if 1 < Nstep_of (nbytes a) (memMax s)
           then Some (map (\<lambda>N. (0, N, Nstep_of (nbytes a) (memMax s))) (arr_shape a)) else None)"
  by (simp add: uploaded_state_def Let_def)

lemma memMax_set_dtype: "memMax (snd (set_dtype dt s)) = memMax s"
  by (simp add: set_dtype_def reset_buffer_def split: option.splits list.splits)

lemma strided_shape_ceil:
  "0 < n \<Longrightarrow> strided_shape n sh = map (\<lambda>N. nat \<lceil>real N / real n\<rceil>) sh"
proof (cases "1 < n")
  case True
  then show ?thesis by (simp add: strided_shape_def ceil_div_nat)
next
  case False
  assume "0 < n"
  with False have "n = 1" by simp
  then show ?thesis by (simp add: strided_shape_def)
qed

subsection \<open>Errors and dtypes of \<open>set_data\<close>\<close>




lemma VolumeRenderer_dtype:
  "VolumeRenderer gpu cpu sz = Inr s \<Longrightarrow> dtype_supported s"
  by (auto simp: VolumeRenderer_def blank_def resize_def reset_buffer_def set_dtype_def
      set_gamma_def set_max_val_def set_box_boundaries_def set_units_def set_modelView_def
      set_projection_def dtype_supported_def split: option.splits)

lemma set_dtype_dtype:
  "dtype_supported s \<Longrightarrow> fst (set_dtype dt s) = Inr () \<Longrightarrow> dtype_supported (snd (set_dtype dt s))"
  by (auto simp: set_dtype_def reset_buffer_def dtype_supported_def
      split: option.splits list.splits if_splits)

lemma dtypes_set_dtype: "dtypes (snd (set_dtype dt s)) = dtypes s"
  by (simp add: set_dtype_def reset_buffer_def split: option.splits list.splits)

lemma set_data_upload_matches:
  assumes "fst (set_data_upload a c s) = Inr ()"
  shows "upload_matches_dtype (snd (set_data_upload a c s)) \<and>
         dtype (snd (set_data_upload a c s)) = dtype s \<and>
         dtypes (snd (set_data_upload a c s)) = dtypes s"
  using assms
  by (auto simp: set_data_upload_def set_shape_def update_data_def upload_matches_dtype_def
      arr_descr_def Let_def astype_def
      split: option.splits sum.splits dtype_ref.splits if_splits)

lemma set_data_dtype:
  assumes "fst (set_data d ac c s) = Inr ()"
  shows "upload_matches_dtype (snd (set_data d ac c s)) \<and>
         (dtype_supported s \<longrightarrow> dtype_supported (snd (set_data d ac c s)))"
proof (cases "arr_dtype d \<in> set (dtypes s)")
  case True
  define s1 where "s1 = snd (set_dtype (Some (Type (arr_dtype d))) s)"
  have sd: "set_dtype (Some (Type (arr_dtype d))) s = (Inr (), s1)"
    using True by (simp add: s1_def set_dtype_supported)
  from assms have eq: "set_data d ac c s = set_data_upload d c s1"
    using True by (auto simp: set_data_def sd split: if_splits)
  have s1: "dtype s1 = Some (Type (arr_dtype d))" "dtypes s1 = dtypes s"
    using True by (simp_all add: s1_def set_dtype_supported reset_buffer_def)
  from assms have "fst (set_data_upload d c s1) = Inr ()" by (simp add: eq)
  from set_data_upload_matches [OF this] show ?thesis
    using True by (simp add: eq s1 dtype_supported_def)
next
  case False
  with assms obtain v where v: "dtype s = Some v"
    and eq: "set_data d ac c s = set_data_upload (astype d v) c s"
    by (auto simp: set_data_def split: option.splits if_splits)
  from assms have "fst (set_data_upload (astype d v) c s) = Inr ()" by (simp add: eq)
  from set_data_upload_matches [OF this] show ?thesis
    by (simp add: eq dtype_supported_def v)
qed


subsection \<open>The structure of \<open>render\<close>\<close>

lemma render_setters_eq:
  "render_setters ov s =
     s\<lparr>maxVal := (case o_maxVal ov of None \<Rightarrow> maxVal s | Some v \<Rightarrow> v),
       gamma := (case o_gamma ov of None \<Rightarrow> gamma s | Some g \<Rightarrow> g),
       stackUnits := (case o_stackUnits ov of None \<Rightarrow> stackUnits s | Some u \<Rightarrow> u),
       modelView := (case o_modelView ov of None \<Rightarrow> modelView s | Some m \<Rightarrow> Some m),
       projection := (case o_projection ov of None \<Rightarrow> projection s | Some p \<Rightarrow> p)\<rparr>"
proof -
  have m: "map (map (\<lambda>x. 1 * x)) m = m" for m :: mat
    by (simp add: map_idI)
  show ?thesis
    by (cases "o_maxVal ov"; cases "o_gamma ov"; cases "o_stackUnits ov"; cases "o_modelView ov";
        cases "o_projection ov")
      (simp_all add: render_setters_def set_max_val_def set_gamma_def set_units_def
        set_modelView_def set_projection_def m)
qed

lemma render_no_overrides:
  "render ext no_overrides s =
     (case dataImg s of
        None \<Rightarrow> (read_output s, s)
      | Some img \<Rightarrow> if modelView s = None then (read_output s, s) else render_dispatch ext s)"
  by (simp add: render_def render_setters_eq no_overrides_def split: option.splits)

lemma read_output_shape:
  "read_output s = Inr a \<Longrightarrow> out_shape a = [width s, height s] \<and> length (out_data a) = width s * height s"
  by (auto simp: read_output_def split: if_splits)

lemma set_dtype_size:
  "width (snd (set_dtype dt s)) = width s \<and> height (snd (set_dtype dt s)) = height s \<and>
   boxBounds (snd (set_dtype dt s)) = boxBounds s \<and> dispatched (snd (set_dtype dt s)) = dispatched s"
  by (simp add: set_dtype_def reset_buffer_def split: option.splits list.splits)

lemma set_data_upload_size:
  "width (snd (set_data_upload a c s)) = width s \<and> height (snd (set_data_upload a c s)) = height s \<and>
   boxBounds (snd (set_data_upload a c s)) = boxBounds s \<and> dispatched (snd (set_data_upload a c s)) = dispatched s"
  by (simp add: set_data_upload_def set_shape_def update_data_def Let_def
      split: option.splits sum.splits dtype_ref.splits)

lemma set_data_size:
  "width (snd (set_data d ac c s)) = width s \<and> height (snd (set_data d ac c s)) = height s \<and>
   boxBounds (snd (set_data d ac c s)) = boxBounds s \<and> dispatched (snd (set_data d ac c s)) = dispatched s"
  by (simp add: set_data_def set_data_upload_size set_dtype_size split_beta
      split: option.splits sum.splits)

lemma render_dispatch_size:
  "width (snd (render_dispatch ext s)) = width s \<and> height (snd (render_dispatch ext s)) = height s \<and>
   boxBounds (snd (render_dispatch ext s)) = boxBounds s"
  by (simp add: render_dispatch_def Let_def split: option.splits sum.splits scale.splits)

lemma render_dispatch_shape:
  "fst (render_dispatch ext s) = Inr a \<Longrightarrow>
     out_shape a = [width s, height s] \<and> length (out_data a) = width s * height s"
  by (auto simp: render_dispatch_def read_output_def Let_def split: option.splits sum.splits scale.splits if_splits)

text \<open>The state in which \<open>render\<close> reaches its checks, when it does.\<close>

lemma render_cases:
  obtains (raise) e where "fst (render ext ov s) = Inl e"
  | (stale) t where "render ext ov s = (read_output t, t)" "dataImg t = None \<or> modelView t = None"
       "width t = width s" "height t = height s" "boxBounds t = boxBounds s"
  | (dispatch) t where "render ext ov s = render_dispatch ext t" "dataImg t \<noteq> None"
       "width t = width s" "height t = height s" "boxBounds t = boxBounds s"
proof -
  define p where "p = (case o_data ov of None \<Rightarrow> (Inr (), s) | Some d \<Rightarrow> set_data d True False s)"
  define t where "t = render_setters ov (snd p)"
  have sz: "width t = width s" "height t = height s" "boxBounds t = boxBounds s"
    by (simp_all add: t_def p_def render_setters_eq set_data_size split: option.splits)
  have r: "render ext ov s = (case fst p of Inl e \<Rightarrow> (Inl e, snd p) | Inr u \<Rightarrow>
         (case dataImg t of
                None \<Rightarrow> (read_output t, t)
              | Some img \<Rightarrow>
                  (case (case o_modelView ov of
                           None \<Rightarrow> Inr True
                         | Some m \<Rightarrow> (case array_bool m of Inl e \<Rightarrow> Inl e | Inr b \<Rightarrow> Inr (\<not> b))) of
                     Inl e \<Rightarrow> (Inl e, t)
                   | Inr not_modelView \<Rightarrow>
                       if not_modelView \<and> modelView t = None then (read_output t, t)
                       else render_dispatch ext t)))"
    unfolding render_def p_def t_def Let_def split_beta by (rule refl)
  show ?thesis
  proof (cases "fst p")
    case (Inl e)
    then show ?thesis using raise [of e] by (simp add: r)
  next
    case (Inr u)
    show ?thesis
    proof (cases "dataImg t")
      case None
      then show ?thesis using stale [of t] Inr sz by (simp add: r)
    next
      case (Some img)
      show ?thesis
      proof (cases "case o_modelView ov of
                           None \<Rightarrow> Inr True
                         | Some m \<Rightarrow> (case array_bool m of Inl e \<Rightarrow> Inl e | Inr b \<Rightarrow> Inr (\<not> b))")
        case (Inl e)
        then show ?thesis using raise [of e] Some \<open>fst p = Inr u\<close> by (simp add: r)
      next
        case nm: (Inr not_modelView)
        show ?thesis
        proof (cases "not_modelView \<and> modelView t = None")
          case True
          then show ?thesis using stale [of t] Some nm \<open>fst p = Inr u\<close> sz by (simp add: r)
        next
          case False
          then show ?thesis using dispatch [of t] Some nm \<open>fst p = Inr u\<close> sz by (auto simp: r)
        qed
      qed
    qed
  qed
qed

lemma render_size:
  "width (snd (render ext ov s)) = width s \<and> height (snd (render ext ov s)) = height s \<and>
   boxBounds (snd (render ext ov s)) = boxBounds s"
proof -
  have "width (snd (case o_data ov of None \<Rightarrow> (Inr (), s) | Some d \<Rightarrow> set_data d True False s)) = width s"
  "height (snd (case o_data ov of None \<Rightarrow> (Inr (), s) | Some d \<Rightarrow> set_data d True False s)) = height s"
  "boxBounds (snd (case o_data ov of None \<Rightarrow> (Inr (), s) | Some d \<Rightarrow> set_data d True False s)) = boxBounds s"
    by (simp_all add: set_data_size split: option.splits)
  then show ?thesis
  by (simp add: render_def Let_def split_beta render_setters_eq
      render_dispatch_size split: option.splits sum.splits)
qed

lemma render_shape:
  assumes "fst (render ext ov s) = Inr a"
  shows "out_shape a = [width s, height s] \<and> length (out_data a) = width s * height s"
proof (cases rule: render_cases [of ext ov s])
  case (raise e)
  with assms show ?thesis by simp
next
  case (stale t)
  with assms read_output_shape [of t a] show ?thesis by simp
next
  case (dispatch t)
  with assms render_dispatch_shape [of ext t a] show ?thesis by simp
qed

lemma renders_size:
  "width (renders ext ovs s) = width s \<and> height (renders ext ovs s) = height s"
  unfolding renders_def
  by (induction ovs arbitrary: s) (simp_all add: render_size)

lemma VolumeRenderer_fresh:
  "VolumeRenderer gpu cpu sz = Inr s \<Longrightarrow>
     dataImg s = None \<and> dispatched s = [] \<and> length (buf s) = width s * height s \<and>
     (width s, height s) = (case sz of None \<Rightarrow> (200, 200) | Some z \<Rightarrow> z)"
  by (auto simp: VolumeRenderer_def blank_def resize_def reset_buffer_def set_dtype_def
      set_gamma_def set_max_val_def set_box_boundaries_def set_units_def set_modelView_def
      set_projection_def split: option.splits)

text \<open>A second dispatch on the state that the first one left.\<close>

lemma stack_scale_mat_upd:
  "stack_scale_mat (s\<lparr>invMBuf := a\<rparr>) = stack_scale_mat s"
  "stack_scale_mat (s\<lparr>invPBuf := a\<rparr>) = stack_scale_mat s"
  "stack_scale_mat (s\<lparr>buf := b\<rparr>) = stack_scale_mat s"
  "stack_scale_mat (s\<lparr>dispatched := c\<rparr>) = stack_scale_mat s"
  by (simp_all add: stack_scale_mat_def cong: option.case_cong list.case_cong)

lemma render_dispatch_again:
  assumes "render_dispatch ext s = (r, s1)"
  shows "fst (render_dispatch ext s1) = r \<and>
         drop (length (dispatched s1)) (dispatched (snd (render_dispatch ext s1))) =
           drop (length (dispatched s)) (dispatched s1) \<and>
         dataImg s1 = dataImg s \<and> modelView s1 = modelView s"
proof (cases "stack_scale_mat s")
  case (Inl e)
  with assms show ?thesis by (auto simp: render_dispatch_def)
next
  case sc: (Inr mScale)
  show ?thesis
  proof (cases "modelView s")
    case None
    with assms sc show ?thesis by (auto simp: render_dispatch_def)
  next
    case mv: (Some mv)
    define X where "X = (case mScale of
                        NonFinite \<Rightarrow> Inl ValueError
                      | Scale sc \<Rightarrow>
                          (case np_dot ext mv sc of
                             Inl e \<Rightarrow> Inl e
                           | Inr m \<Rightarrow> linalg_inv ext m))"
    show ?thesis
    proof (cases X)
      case (Inl e)
      with assms sc mv show ?thesis by (auto simp: render_dispatch_def X_def)
    next
      case im: (Inr invM)
      show ?thesis
      proof (cases "linalg_inv ext (projection s)")
        case (Inl e)
        with assms sc mv im show ?thesis
          by (auto simp: render_dispatch_def X_def [symmetric] Let_def stack_scale_mat_upd)
      next
        case ip: (Inr invP)
        show ?thesis
        proof (cases "dataImg s")
          case None
          with assms sc mv im ip show ?thesis
            by (auto simp: render_dispatch_def X_def [symmetric] Let_def stack_scale_mat_upd)
        next
          case (Some img)
          with assms sc mv im ip show ?thesis
            by (auto simp: render_dispatch_def X_def [symmetric] Let_def stack_scale_mat_upd
                kernel_arguments_def read_output_def split: if_splits)
        qed
      qed
    qed
  qed
qed

lemma array_bool_many: "1 < length (concat m) \<Longrightarrow> array_bool m = Inl ValueError"
  by (cases "concat m" rule: list.exhaust; simp add: array_bool_def split: list.splits)

lemma set_data_dataImg: "fst (set_data d ac c s) = Inr () \<Longrightarrow> dataImg (snd (set_data d ac c s)) \<noteq> None"
  using set_data_dtype [of d ac c s] by (auto simp: upload_matches_dtype_def split: option.splits)

text \<open>The renderer with the float32 volume uploaded, and one \<open>render()\<close> on it.\<close>

lemma r1_eq:
  "r1 = r0\<lparr>dataSlices := Some (Some [(0, 4, 2), (0, 4, 2), (0, 4, 2)]),
             dataImg := Some \<lparr>img_shape = [2, 2, 2], channel_type = Float32,
                               channel_order_Rx = False,
                               img_written = Some \<lparr>arr_dtype = Float32, arr_byteorder = Native, arr_shape = [2, 2, 2]\<rparr>\<rparr>,
             p_data := Some \<lparr>arr_dtype = Float32, arr_byteorder = Native, arr_shape = [2, 2, 2]\<rparr>\<rparr>"
proof -
  have "Nstep_of 256 64 = 2" by (rule Nstep_of_eqI) simp_all
  then show ?thesis
    by (simp add: r1_def set_data_supported set_dtype_supported r0_eq vol_f32_def
        uploaded_state_def nbytes_def strided_shape_def Let_def)
qed

lemma render_r1:
  "render ext0 no_overrides r1 =
     (Inr \<lparr>out_shape = [2, 3], out_data = [0, 1, 2, 3, 4, 5]\<rparr>,
      r1\<lparr>invMBuf := concat mat4_identity, invPBuf := concat mat4_identity,
         buf := [0, 1, 2, 3, 4, 5],
         dispatched := [\<lparr>k_width = 2, k_height = 3, k_bounds = [-1, 1, -1, 1, -1, 1],
                          k_maxVal = 0, k_gamma = 1,
                          k_invP = concat mat4_identity, k_invM = concat mat4_identity,
                          k_img = \<lparr>img_shape = [2, 2, 2], channel_type = Float32,
                               channel_order_Rx = False,
                               img_written = Some \<lparr>arr_dtype = Float32, arr_byteorder = Native, arr_shape = [2, 2, 2]\<rparr>\<rparr>,
                          k_isUint16 = False\<rparr>]\<rparr>)"
proof -
  have u: "[0 ..< 6] = [0, 1, 2, 3, 4, 5]" by (simp add: upt_rec)
  have sc: "stack_scale_mat r1 = Inr (Scale mat4_identity)"
    by (simp add: stack_scale_mat_def r1_eq r0_eq mat4_scale_def mat4_identity_def)
  have f: "dataImg r1 = Some \<lparr>img_shape = [2, 2, 2], channel_type = Float32,
                               channel_order_Rx = False,
                               img_written = Some \<lparr>arr_dtype = Float32, arr_byteorder = Native, arr_shape = [2, 2, 2]\<rparr>\<rparr>"
    "modelView r1 = Some mat4_identity" "projection r1 = mat4_identity"
    "width r1 = 2" "height r1 = 3" "boxBounds r1 = [-1, 1, -1, 1, -1, 1]"
    "maxVal r1 = 0" "gamma r1 = 1" "dtype r1 = Some (Type Float32)" "dispatched r1 = []"
    by (simp_all add: r1_eq r0_eq)
  have "render ext0 no_overrides r1 = render_dispatch ext0 r1"
    by (simp add: render_no_overrides f)
  also have "\<dots> =
     (Inr \<lparr>out_shape = [2, 3], out_data = [0, 1, 2, 3, 4, 5]\<rparr>,
      r1\<lparr>invMBuf := concat mat4_identity, invPBuf := concat mat4_identity,
         buf := [0, 1, 2, 3, 4, 5],
         dispatched := [\<lparr>k_width = 2, k_height = 3, k_bounds = [-1, 1, -1, 1, -1, 1],
                          k_maxVal = 0, k_gamma = 1,
                          k_invP = concat mat4_identity, k_invM = concat mat4_identity,
                          k_img = \<lparr>img_shape = [2, 2, 2], channel_type = Float32,
                               channel_order_Rx = False,
                               img_written = Some \<lparr>arr_dtype = Float32, arr_byteorder = Native, arr_shape = [2, 2, 2]\<rparr>\<rparr>,
                          k_isUint16 = False\<rparr>]\<rparr>)"
    by (simp add: render_dispatch_def sc f kernel_arguments_def read_output_def ext0_def
        dot0_def inv0_def kern0_def u)
  finally show ?thesis .
qed


section \<open>The claims\<close>

subsection \<open>Downsampling stride and uploaded shape\<close>

text \<open>
  C1, amended. On a renderer with a device limit \<open>memMax > 0\<close> whose stored dtype is a scalar
  type, \<open>set_data\<close> (with \<open>autoConvert\<close>) returns normally and computes the stride
  \<open>n = ceil(sqrt(nbytes / memMax))\<close> from the byte size of the array \<open>a\<close> that it uploads from:
  the input itself (uploaded in native byte order) when its scalar type is supported, the
  input converted to the stored dtype otherwise. Slices of step \<open>n\<close> are stored exactly when
  \<open>n > 1\<close>. When that byte size is 0 the stride is 0, when it is positive and at most
  \<open>memMax\<close> the stride is 1, and in both cases the uploaded array has the shape of the
  input. When that byte size is \<open>k\<close> times \<open>memMax\<close> with \<open>k \<ge> 1\<close>, the stride is
  \<open>ceil(sqrt(k))\<close> and the uploaded size along each axis is \<open>ceil(N / n)\<close>.
\<close>

theorem set_data_stride:
  fixes s :: renderer and d :: ndarray and t :: dtype and copyData :: bool and k :: nat
  assumes mm: "0 < memMax s" and dt: "dtype s = Some (Type t)"
  defines "a \<equiv> (if arr_dtype d \<in> set (dtypes s) then d\<lparr>arr_byteorder := Native\<rparr>
                 else astype d (Type t))"
  defines "n \<equiv> nat \<lceil>sqrt (real (nbytes a) / real (memMax s))\<rceil>"
  defines "s' \<equiv> snd (set_data d True copyData s)"
  shows "fst (set_data d True copyData s) = Inr () \<and>
         dataSlices s' = Some (if 1 < n then Some (map (\<lambda>N. (0, N, n)) (arr_shape d)) else None) \<and>
         (nbytes a = 0 \<longrightarrow> n = 0 \<and> uploaded s' = Some a) \<and>
         (0 < nbytes a \<and> nbytes a \<le> memMax s \<longrightarrow> n = 1 \<and> uploaded s' = Some a) \<and>
         (1 \<le> k \<and> nbytes a = k * memMax s \<longrightarrow>
            n = nat \<lceil>sqrt (real k)\<rceil> \<and>
            uploaded s' = Some (a\<lparr>arr_shape := map (\<lambda>N. nat \<lceil>real N / real n\<rceil>) (arr_shape d)\<rparr>))"
proof -
  define a0 where "a0 = (if arr_dtype d \<in> set (dtypes s) then d else astype d (Type t))"
  have a: "a = a0\<lparr>arr_byteorder := Native\<rparr>"
    by (simp add: a_def a0_def astype_def)
  have nb: "nbytes a0 = nbytes a"
    by (simp add: a nbytes_def)
  have n: "n = Nstep_of (nbytes a0) (memMax s)"
    by (simp add: n_def Nstep_of_def nb)
  have sh: "arr_shape a = arr_shape d" "arr_shape a0 = arr_shape d"
    by (simp_all add: a_def a0_def astype_def)
  have run: "set_data d True copyData s =
      (Inr (), uploaded_state a0
         (snd (if arr_dtype d \<in> set (dtypes s) then set_dtype (Some (Type (arr_dtype d))) s
               else (Inr (), s))))"
  proof (cases "arr_dtype d \<in> set (dtypes s)")
    case True
    then show ?thesis using mm by (simp add: set_data_supported a0_def)
  next
    case False
    then show ?thesis using mm dt by (simp add: set_data_converted a0_def)
  qed
  have mem: "memMax (snd (if arr_dtype d \<in> set (dtypes s)
                          then set_dtype (Some (Type (arr_dtype d))) s else (Inr (), s))) = memMax s"
    by (simp add: memMax_set_dtype)
  have up: "uploaded s' = Some (a\<lparr>arr_shape := strided_shape n (arr_shape d)\<rparr>)"
    unfolding s'_def run by (simp add: uploaded_uploaded_state mem n sh a)
  have sl: "dataSlices s' = Some (if 1 < n then Some (map (\<lambda>N. (0, N, n)) (arr_shape d)) else None)"
    unfolding s'_def run by (simp add: dataSlices_uploaded_state mem n sh)
  have n: "n = Nstep_of (nbytes a) (memMax s)"
    by (simp add: n nb)
  have zero: "n = 0 \<and> uploaded s' = Some a" if "nbytes a = 0"
    using that by (simp add: up n Nstep_of_zero strided_shape_def sh(1) [symmetric])
  have one: "n = 1 \<and> uploaded s' = Some a" if "0 < nbytes a" "nbytes a \<le> memMax s"
    using that by (simp add: up n Nstep_of_one strided_shape_def sh(1) [symmetric])
  have mult: "n = nat \<lceil>sqrt (real k)\<rceil> \<and>
      uploaded s' = Some (a\<lparr>arr_shape := map (\<lambda>N. nat \<lceil>real N / real n\<rceil>) (arr_shape d)\<rparr>)"
    if "1 \<le> k" "nbytes a = k * memMax s"
  proof -
    have nk: "n = nat \<lceil>sqrt (real k)\<rceil>"
      using that mm by (simp add: n Nstep_of_multiple)
    have "1 \<le> sqrt (real k)" using that by simp
    then have "0 < n" unfolding nk by linarith
    then show ?thesis using nk by (simp add: up strided_shape_ceil)
  qed
  show ?thesis
    using run sl zero one mult by simp
qed

text \<open>
  The theorem at a float32 volume of 4 x 4 x 4 (256 bytes, four times the limit of 64):
  stride 2, uploaded shape 2 x 2 x 2.
\<close>

theorem set_data_stride_witness:
  "0 < memMax r0 \<and> dtype r0 = Some (Type Float32) \<and> nbytes vol_f32 = 4 * memMax r0 \<and>
   fst (set_data vol_f32 True False r0) = Inr () \<and>
   dataSlices (snd (set_data vol_f32 True False r0)) = Some (Some [(0, 4, 2), (0, 4, 2), (0, 4, 2)]) \<and>
   uploaded (snd (set_data vol_f32 True False r0)) = Some \<lparr>arr_dtype = Float32, arr_byteorder = Native, arr_shape = [2, 2, 2]\<rparr>"
proof -
  have h: "0 < memMax r0" "dtype r0 = Some (Type Float32)"
    by (simp_all add: r0_eq)
  have nb: "nbytes vol_f32 = 4 * memMax r0"
    by (simp add: r0_eq nbytes_def vol_f32_def)
  have sup: "arr_dtype vol_f32 \<in> set (dtypes r0)"
    by (simp add: r0_eq vol_f32_def)
  have nat: "vol_f32\<lparr>arr_byteorder := Native\<rparr> = vol_f32"
    by (simp add: vol_f32_def)
  have r: "real (memMax r0) = 64" by (simp add: r0_eq)
  show ?thesis
    using set_data_stride [OF h, of vol_f32 False 4] h nb sup
    by (simp add: r nat) (simp add: vol_f32_def)
qed

text \<open>
  The specification's sentence speaks of the byte size of the input volume. A uint8 volume of
  4 x 4 x 4 has 64 bytes, not more than the limit of 64, yet it is converted to float32
  first (256 bytes), so that the stride is 2 and the uploaded shape 2 x 2 x 2.
\<close>

theorem set_data_stride_counterexample:
  "nbytes vol_u8 \<le> memMax r0 \<and>
   dataSlices (snd (set_data vol_u8 True False r0)) = Some (Some [(0, 4, 2), (0, 4, 2), (0, 4, 2)]) \<and>
   uploaded (snd (set_data vol_u8 True False r0)) = Some \<lparr>arr_dtype = Float32, arr_byteorder = Native, arr_shape = [2, 2, 2]\<rparr> \<and>
   arr_shape vol_u8 = [4, 4, 4]"
proof -
  have "Nstep_of 256 64 = 2" by (rule Nstep_of_eqI) simp_all
  then show ?thesis
    by (simp add: set_data_converted r0_eq vol_u8_def uploaded_uploaded_state
        dataSlices_uploaded_state nbytes_def astype_def strided_shape_def)
qed





subsection \<open>Dtypes\<close>



text \<open>
  C10, amended. After construction, after every \<open>set_dtype\<close> that returns normally and after
  every \<open>set_data\<close> that returns normally, the stored dtype is one of the supported dtypes.
  After every \<open>set_data\<close> that returns normally, the device image and the array written to
  it have exactly the stored dtype. (\<open>set_dtype\<close> writes nothing to the device image.)
\<close>

theorem dtype_invariant:
  "(VolumeRenderer gpu cpu sz = Inr s0 \<longrightarrow> dtype_supported s0) \<and>
   (dtype_supported s \<and> fst (set_dtype dt s) = Inr () \<longrightarrow> dtype_supported (snd (set_dtype dt s))) \<and>
   (dtype_supported s \<and> fst (set_data d autoConvert copyData s) = Inr () \<longrightarrow>
      dtype_supported (snd (set_data d autoConvert copyData s)) \<and>
      upload_matches_dtype (snd (set_data d autoConvert copyData s)))"
  using VolumeRenderer_dtype set_dtype_dtype set_data_dtype by blast

text \<open>The theorem at the constructed renderer, \<open>set_dtype(np.uint16)\<close> and the uint8 volume.\<close>

theorem dtype_invariant_witness:
  "VolumeRenderer (Some 64) None (Some (2, 3)) = Inr r0 \<and> dtype_supported r0 \<and>
   fst (set_dtype (Some (Type UInt16)) r0) = Inr () \<and> dtype_supported (snd (set_dtype (Some (Type UInt16)) r0)) \<and>
   fst (set_data vol_u8 True False r0) = Inr () \<and>
   dtype_supported (snd (set_data vol_u8 True False r0)) \<and>
   upload_matches_dtype (snd (set_data vol_u8 True False r0)) \<and>
   uploaded (snd (set_data vol_u8 True False r0)) = Some \<lparr>arr_dtype = Float32, arr_byteorder = Native, arr_shape = [2, 2, 2]\<rparr>"
proof -
  have a: "VolumeRenderer (Some 64) None (Some (2, 3)) = Inr r0" by (rule r0_constructed)
  have b: "fst (set_dtype (Some (Type UInt16)) r0) = Inr ()"
    by (simp add: set_dtype_supported r0_eq)
  have c: "fst (set_data vol_u8 True False r0) = Inr ()"
    by (simp add: set_data_converted r0_eq vol_u8_def)
  have "Nstep_of 256 64 = 2" by (rule Nstep_of_eqI) simp_all
  then have d: "uploaded (snd (set_data vol_u8 True False r0)) = Some \<lparr>arr_dtype = Float32, arr_byteorder = Native, arr_shape = [2, 2, 2]\<rparr>"
    by (simp add: set_data_converted r0_eq vol_u8_def uploaded_uploaded_state nbytes_def astype_def strided_shape_def)
  show ?thesis
    using dtype_invariant [of "Some 64" None "Some (2, 3)" r0 r0 "Some (Type UInt16)" vol_u8 True False] a b c d
    by simp
qed

text \<open>
  \<open>set_dtype\<close> after \<open>set_data\<close> breaks the second half of the invariant as the specification has it: it returns
  normally and stores uint16, while the array on the device is still the float32 one.
\<close>

theorem dtype_invariant_counterexample:
  "fst (set_data vol_f32 True False r0) = Inr () \<and>
   fst (set_dtype (Some (Type UInt16)) (snd (set_data vol_f32 True False r0))) = Inr () \<and>
   dtype (snd (set_dtype (Some (Type UInt16)) (snd (set_data vol_f32 True False r0)))) = Some (Type UInt16) \<and>
   uploaded (snd (set_dtype (Some (Type UInt16)) (snd (set_data vol_f32 True False r0)))) =
     Some \<lparr>arr_dtype = Float32, arr_byteorder = Native, arr_shape = [2, 2, 2]\<rparr> \<and>
   \<not> upload_matches_dtype (snd (set_dtype (Some (Type UInt16)) (snd (set_data vol_f32 True False r0))))"
proof -
  have "Nstep_of 256 64 = 2" by (rule Nstep_of_eqI) simp_all
  then show ?thesis
  by (simp add: set_data_supported set_dtype_supported r0_eq vol_f32_def uploaded_state_def uploaded_def upload_matches_dtype_def reset_buffer_def
        nbytes_def strided_shape_def Let_def)
qed


subsection \<open>Output size\<close>

text \<open>
  C2, amended. After \<open>resize((w,h))\<close> the output buffer is a fresh one of \<open>h*w\<close> values and
  the stored size is \<open>(w,h)\<close>, whatever the size was before. After any sequence of
  \<open>render\<close> calls that follows, a \<open>render\<close> call that returns an array returns one of shape
  \<open>(w,h)\<close> (width first) with \<open>w*h\<close> values; on a renderer without volume data,
  \<open>render()\<close> does return.
\<close>

theorem resize_then_render:
  "buf (resize (w, h) s) = replicate (h * w) 0 \<and>
   width (resize (w, h) s) = w \<and> height (resize (w, h) s) = h \<and>
   (fst (render ext ov (renders ext ovs (resize (w, h) s))) = Inr a \<longrightarrow>
      out_shape a = [w, h] \<and> length (out_data a) = w * h) \<and>
   (dataImg s = None \<longrightarrow>
      fst (render ext no_overrides (resize (w, h) s)) =
        Inr \<lparr>out_shape = [w, h], out_data = replicate (h * w) 0\<rparr>)"
proof -
  have sz: "width (resize (w, h) s) = w" "height (resize (w, h) s) = h"
    "buf (resize (w, h) s) = replicate (h * w) 0" "dataImg (resize (w, h) s) = dataImg s"
    by (simp_all add: resize_def reset_buffer_def)
  have shape: "out_shape a = [w, h] \<and> length (out_data a) = w * h"
    if "fst (render ext ov (renders ext ovs (resize (w, h) s))) = Inr a"
    using render_shape [OF that] by (simp add: renders_size sz)
  have fresh: "fst (render ext no_overrides (resize (w, h) s)) =
        Inr \<lparr>out_shape = [w, h], out_data = replicate (h * w) 0\<rparr>" if "dataImg s = None"
    using that by (simp add: render_no_overrides sz read_output_def mult.commute)
  show ?thesis using sz shape fresh by blast
qed

text \<open>The theorem at \<open>resize((3,2))\<close> on the constructed 2 x 3 renderer.\<close>

theorem resize_then_render_witness:
  "dataImg r0 = None \<and>
   buf (resize (3, 2) r0) = replicate 6 0 \<and>
   fst (render ext0 no_overrides (resize (3, 2) r0)) =
     Inr \<lparr>out_shape = [3, 2], out_data = replicate 6 0\<rparr>"
proof -
  have h: "dataImg r0 = None" by (simp add: r0_eq)
  show ?thesis
    using resize_then_render [of 3 2 r0 ext0 no_overrides "[]"] h by simp
qed

text \<open>
  The specification's sentence has the shape \<open>(h,w)\<close>: after \<open>resize((3,2))\<close>, width 3 and height 2,
  \<open>render()\<close> returns shape \<open>(3,2)\<close>, not \<open>(2,3)\<close>.
\<close>

theorem resize_then_render_counterexample:
  "width (resize (3, 2) r0) = 3 \<and> height (resize (3, 2) r0) = 2 \<and>
   result_shape (fst (render ext0 no_overrides (resize (3, 2) r0))) = Some [3, 2] \<and>
   result_shape (fst (render ext0 no_overrides (resize (3, 2) r0))) \<noteq> Some [2, 3]"
  by (simp add: render_no_overrides resize_def reset_buffer_def read_output_def result_shape_def r0_eq)


subsection \<open>Rendering without data\<close>

text \<open>
  C3, amended. On a freshly constructed renderer, \<open>render()\<close> with no arguments does not
  raise, returns the output buffer as an array of shape \<open>(width,height)\<close>, and leaves the
  whole renderer as it was: no kernel dispatch is logged and the camera state (model-view,
  projection, spacing, clip box, gamma, maxVal) is unchanged.
\<close>

theorem render_fresh:
  assumes "VolumeRenderer gpu cpu sz = Inr s"
  shows "render ext no_overrides s = (Inr \<lparr>out_shape = [width s, height s], out_data = buf s\<rparr>, s) \<and>
         dispatched s = [] \<and>
         (width s, height s) = (case sz of None \<Rightarrow> (200, 200) | Some z \<Rightarrow> z)"
  using VolumeRenderer_fresh [OF assms]
  by (simp add: render_no_overrides read_output_def)

text \<open>The theorem at \<open>VolumeRenderer((2,3))\<close>.\<close>

theorem render_fresh_witness:
  "VolumeRenderer (Some 64) None (Some (2, 3)) = Inr r0 \<and>
   render ext0 no_overrides r0 = (Inr \<lparr>out_shape = [2, 3], out_data = replicate 6 0\<rparr>, r0)"
  using render_fresh [OF r0_constructed, of ext0] r0_constructed
  by (simp add: r0_eq)

text \<open>
  The specification's sentence has the shape \<open>(height,width)\<close>: the renderer constructed with
  \<open>(2,3)\<close> has width 2 and height 3 and returns shape \<open>(2,3)\<close>.
\<close>

theorem render_fresh_counterexample:
  "VolumeRenderer (Some 64) None (Some (2, 3)) = Inr r0 \<and>
   height r0 = 3 \<and> width r0 = 2 \<and>
   result_shape (fst (render ext0 no_overrides r0)) = Some [2, 3] \<and>
   result_shape (fst (render ext0 no_overrides r0)) \<noteq> Some [height r0, width r0]"
  using r0_constructed
  by (simp add: render_no_overrides read_output_def result_shape_def r0_eq)


text \<open>
  C7, amended. A \<open>render\<close> call without a data override on a renderer without volume data
  dispatches no kernel and returns the prior output buffer; it leaves the renderer as it
  was except that the overrides given for maxVal, gamma, stackUnits, modelView and
  projection have been stored by their setters. With no overrides the renderer is
  unchanged.
\<close>

theorem render_without_data:
  assumes "dataImg s = None" and "o_data ov = None"
  shows "render ext ov s =
           (read_output s,
            s\<lparr>maxVal := (case o_maxVal ov of None \<Rightarrow> maxVal s | Some v \<Rightarrow> v),
              gamma := (case o_gamma ov of None \<Rightarrow> gamma s | Some g \<Rightarrow> g),
              stackUnits := (case o_stackUnits ov of None \<Rightarrow> stackUnits s | Some u \<Rightarrow> u),
              modelView := (case o_modelView ov of None \<Rightarrow> modelView s | Some m \<Rightarrow> Some m),
              projection := (case o_projection ov of None \<Rightarrow> projection s | Some p \<Rightarrow> p)\<rparr>) \<and>
         dispatched (snd (render ext ov s)) = dispatched s \<and>
         buf (snd (render ext ov s)) = buf s \<and>
         render ext no_overrides s = (read_output s, s)"
proof -
  have run: "render ext ov s =
           (read_output s,
            s\<lparr>maxVal := (case o_maxVal ov of None \<Rightarrow> maxVal s | Some v \<Rightarrow> v),
              gamma := (case o_gamma ov of None \<Rightarrow> gamma s | Some g \<Rightarrow> g),
              stackUnits := (case o_stackUnits ov of None \<Rightarrow> stackUnits s | Some u \<Rightarrow> u),
              modelView := (case o_modelView ov of None \<Rightarrow> modelView s | Some m \<Rightarrow> Some m),
              projection := (case o_projection ov of None \<Rightarrow> projection s | Some p \<Rightarrow> p)\<rparr>)"
    using assms by (simp add: render_def render_setters_eq read_output_def)
  have none: "render ext no_overrides s = (read_output s, s)"
    using assms(1) by (simp add: render_no_overrides)
  show ?thesis
    unfolding run using none by simp
qed

text \<open>The theorem at \<open>render(gamma=2)\<close> on the constructed renderer.\<close>

theorem render_without_data_witness:
  "dataImg r0 = None \<and> o_data ov_gamma = None \<and>
   render ext0 ov_gamma r0 =
     (Inr \<lparr>out_shape = [2, 3], out_data = replicate 6 0\<rparr>, r0\<lparr>gamma := 2\<rparr>)"
proof -
  have h: "dataImg r0 = None" "o_data ov_gamma = None"
    by (simp_all add: r0_eq ov_gamma_def no_overrides_def)
  show ?thesis
    using render_without_data [OF h, of ext0] h
    by (simp add: ov_gamma_def no_overrides_def read_output_def r0_eq)
qed

text \<open>
  The call is not atomic: \<open>render(gamma=2)\<close> on the renderer without data dispatches
  nothing and returns the prior buffer, and yet the stored gamma has changed from 1 to 2.
\<close>

theorem render_atomic_counterexample:
  "gamma r0 = 1 \<and>
   gamma (snd (render ext0 ov_gamma r0)) = 2 \<and>
   dispatched (snd (render ext0 ov_gamma r0)) = [] \<and>
   fst (render ext0 ov_gamma r0) = Inr \<lparr>out_shape = [2, 3], out_data = buf r0\<rparr>"
  by (simp add: render_def render_setters_eq ov_gamma_def no_overrides_def read_output_def r0_eq)


subsection \<open>Rendering with data\<close>

text \<open>
  C9. When \<open>render()\<close> has run on a renderer, a second \<open>render()\<close> on the renderer as the
  first one left it has the same result (the same array, or the same exception), and
  dispatches the kernel with the same arguments as the first: for any product, inverse and
  kernel that are functions of their arguments.
\<close>

theorem render_twice:
  assumes "render ext no_overrides s = (r, s1)"
  shows "fst (render ext no_overrides s1) = r \<and>
         drop (length (dispatched s1)) (dispatched (snd (render ext no_overrides s1))) =
           drop (length (dispatched s)) (dispatched s1)"
proof (cases "dataImg s = None \<or> modelView s = None")
  case True
  with assms have "s1 = s" "r = read_output s"
    by (auto simp: render_no_overrides split: option.splits)
  with True show ?thesis
    by (auto simp: render_no_overrides split: option.splits)
next
  case False
  with assms have d: "render_dispatch ext s = (r, s1)"
    by (auto simp: render_no_overrides split: option.splits)
  from render_dispatch_again [OF d] False show ?thesis
    by (auto simp: render_no_overrides split: option.splits)
qed

text \<open>The theorem on the renderer with the float32 volume uploaded.\<close>

theorem render_twice_witness:
  "fst (render ext0 no_overrides r1) = Inr \<lparr>out_shape = [2, 3], out_data = [0, 1, 2, 3, 4, 5]\<rparr> \<and>
   fst (render ext0 no_overrides (snd (render ext0 no_overrides r1))) =
     Inr \<lparr>out_shape = [2, 3], out_data = [0, 1, 2, 3, 4, 5]\<rparr>"
  using render_twice [of ext0 r1 "fst (render ext0 no_overrides r1)" "snd (render ext0 no_overrides r1)"]
  by (simp add: render_r1)


text \<open>
  C4, which the source does not meet. On a renderer with volume data, every
  \<open>render\<close> call that overrides modelView with an array of more than one element raises:
  \<open>not modelView\<close> asks for the truth value of the array. Without a data override the
  exception is a ValueError, raised after the setter has stored the matrix and before any
  dispatch. A boxBounds override is never stored: \<open>render\<close> leaves the clip box as it was
  for all overrides.
\<close>

theorem render_modelView_raises:
  assumes "dataImg s \<noteq> None" and "o_modelView ov = Some m" and "1 < length (concat m)"
  shows "(\<exists>e. fst (render ext ov s) = Inl e) \<and>
         (o_data ov = None \<longrightarrow>
            fst (render ext ov s) = Inl ValueError \<and>
            modelView (snd (render ext ov s)) = Some m \<and>
            dispatched (snd (render ext ov s)) = dispatched s) \<and>
         boxBounds (snd (render ext ov s)) = boxBounds s"
proof -
  have ab: "array_bool m = Inl ValueError" using assms(3) by (rule array_bool_many)
  have nodata: "render ext ov s = (Inl ValueError, render_setters ov s)" if "o_data ov = None"
    using that assms(1,2) by (auto simp: render_def render_setters_eq ab)
  have withdata: "\<exists>e. fst (render ext ov s) = Inl e" if d: "o_data ov = Some d" for d
  proof (cases "fst (set_data d True False s)")
    case (Inl e)
    then show ?thesis using d by (simp add: render_def split_beta)
  next
    case (Inr u)
    then have "dataImg (snd (set_data d True False s)) \<noteq> None"
      using set_data_dataImg [of d True False s] by simp
    then show ?thesis using d Inr assms(2)
      by (auto simp: render_def split_beta render_setters_eq ab)
  qed
  have 1: "\<exists>e. fst (render ext ov s) = Inl e"
    using nodata withdata by (cases "o_data ov") auto
  have 2: "o_data ov = None \<longrightarrow>
            fst (render ext ov s) = Inl ValueError \<and>
            modelView (snd (render ext ov s)) = Some m \<and>
            dispatched (snd (render ext ov s)) = dispatched s"
    using nodata assms(2) by (auto simp: render_setters_eq)
  show ?thesis using 1 2 render_size [of ext ov s] by blast
qed

text \<open>The theorem at \<open>render(modelView=mat4_identity())\<close> on the renderer with data.\<close>

theorem render_modelView_raises_witness:
  "dataImg r1 \<noteq> None \<and> o_modelView ov_modelView = Some mat4_identity \<and>
   length (concat mat4_identity) = 16 \<and>
   fst (render ext0 ov_modelView r1) = Inl ValueError \<and>
   dispatched (snd (render ext0 ov_modelView r1)) = []"
proof -
  have h: "dataImg r1 \<noteq> None" "o_modelView ov_modelView = Some mat4_identity"
    "1 < length (concat mat4_identity)"
    by (simp_all add: r1_eq ov_modelView_def no_overrides_def mat4_identity_def)
  have n: "o_data ov_modelView = None" by (simp add: ov_modelView_def no_overrides_def)
  have d: "dispatched r1 = []" by (simp add: r1_eq r0_eq)
  show ?thesis
    using render_modelView_raises [OF h, of ext0] h(1,2) n d
    by (simp add: mat4_identity_def)
qed


subsection \<open>Stack scale\<close>

text \<open>
  C5. For a stored image shape \<open>(Nx,Ny,Nz)\<close> and spacing \<open>(dx,dy,dz)\<close> whose largest extent
  \<open>max_j(spacing_j*N_j)\<close> is not 0, the stack-scale matrix is the diagonal matrix of
  \<open>spacing_i*N_i / max_j(spacing_j*N_j)\<close> (and 1 in the fourth place); for unit spacing and a
  cubic volume it is the identity matrix.
\<close>

theorem stack_scale_mat_diag:
  assumes "dataImg s = Some img" and "img_shape img = [Nx, Ny, Nz]"
    and "stackUnits s = [dx, dy, dz]"
    and "Max {dx * real Nx, dy * real Ny, dz * real Nz} \<noteq> 0"
  shows "stack_scale_mat s =
           Inr (Scale [[dx * real Nx / Max {dx * real Nx, dy * real Ny, dz * real Nz}, 0, 0, 0],
                       [0, dy * real Ny / Max {dx * real Nx, dy * real Ny, dz * real Nz}, 0, 0],
                       [0, 0, dz * real Nz / Max {dx * real Nx, dy * real Ny, dz * real Nz}, 0],
                       [0, 0, 0, 1]]) \<and>
         (dx = 1 \<and> dy = 1 \<and> dz = 1 \<and> Nx = Ny \<and> Ny = Nz \<longrightarrow>
            stack_scale_mat s = Inr (Scale mat4_identity))"
  using assms
  by (auto simp: stack_scale_mat_def mat4_scale_def mat4_identity_def Let_def)

text \<open>
  The theorem on the renderer with the 2 x 2 x 2 image, for spacing (1,1,1) and (1,1,6).
\<close>

theorem stack_scale_mat_diag_witness:
  "dataImg r1 = Some \<lparr>img_shape = [2, 2, 2], channel_type = Float32,
                               channel_order_Rx = False,
                               img_written = Some \<lparr>arr_dtype = Float32, arr_byteorder = Native, arr_shape = [2, 2, 2]\<rparr>\<rparr> \<and>
   stackUnits r1 = [1, 1, 1] \<and>
   stack_scale_mat r1 = Inr (Scale mat4_identity) \<and>
   stack_scale_mat (set_units [1, 1, 6] r1) =
     Inr (Scale [[1 / 6, 0, 0, 0], [0, 1 / 6, 0, 0], [0, 0, 1, 0], [0, 0, 0, 1]])"
proof -
  let ?img = "\<lparr>img_shape = [2, 2, 2], channel_type = Float32,
                               channel_order_Rx = False,
                               img_written = Some \<lparr>arr_dtype = Float32, arr_byteorder = Native, arr_shape = [2, 2, 2]\<rparr>\<rparr>"
  have a: "dataImg r1 = Some ?img" "stackUnits r1 = [1, 1, 1]"
    by (simp_all add: r1_eq r0_eq)
  have b: "dataImg (set_units [1, 1, 6] r1) = Some ?img" "stackUnits (set_units [1, 1, 6] r1) = [1, 1, 6]"
    by (simp_all add: r1_eq r0_eq set_units_def)
  have i: "img_shape ?img = [2, 2, 2]" by simp
  show ?thesis
    using stack_scale_mat_diag [OF a(1) i a(2)] stack_scale_mat_diag [OF b(1) i b(2)] a
    by (simp add: mat4_identity_def)
qed


end
